theory Spec2Isabelle
  imports Complex_Main "HOL-Library.Multiset"
begin

section \<open>JavaScript values\<close>

text \<open>
  A request body is the value produced by the JSON body parser. Strings are lists of code
  units; the development covers the code units 0..255, on which \<open>length\<close> is the
  \<^verbatim>\<open>.length\<close> of the JavaScript string. Numbers are the finite values a JSON
  document can denote.
\<close>

datatype json =
    JNull
  | JBool bool
  | JNum rat
  | JStr string
  | JArr "json list"
  | JObj "(string \<times> json) list"

text \<open>The name of a value's type as the validation library reports it.\<close>

fun typeName :: "json \<Rightarrow> string" where
  "typeName JNull = ''null''"
| "typeName (JBool _) = ''boolean''"
| "typeName (JNum _) = ''number''"
| "typeName (JStr _) = ''string''"
| "typeName (JArr _) = ''array''"
| "typeName (JObj _) = ''object''"

text \<open>
  \<^verbatim>\<open>String.prototype.toLowerCase\<close> on the code units 0..255: the letters A-Z and the
  capital letters of the Latin-1 block (all of 192..222 but the multiplication sign 215)
  move up by 32, every other unit is left as it is.
\<close>

definition lowerChar :: "char \<Rightarrow> char" where
  "lowerChar c =
     (let n = (of_char c :: nat)
      in if (65 \<le> n \<and> n \<le> 90) \<or> (192 \<le> n \<and> n \<le> 222 \<and> n \<noteq> 215)
         then char_of (n + 32) else c)"

definition toLowerCase :: "string \<Rightarrow> string" where
  "toLowerCase s = map lowerChar s"

text \<open>
  \<^verbatim>\<open>String.prototype.trim\<close>: white space and line terminators among the code units
  0..255 are tab, line feed, vertical tab, form feed, carriage return, space and the
  no-break space.
\<close>

definition isWhiteSpace :: "char \<Rightarrow> bool" where
  "isWhiteSpace c =
     (let n = (of_char c :: nat)
      in n = 9 \<or> n = 10 \<or> n = 11 \<or> n = 12 \<or> n = 13 \<or> n = 32 \<or> n = 160)"

definition trim :: "string \<Rightarrow> string" where
  "trim s = rev (dropWhile isWhiteSpace (rev (dropWhile isWhiteSpace s)))"


section \<open>Request validation (validators/userValidator.js)\<close>

text \<open>
  The two schemas as the repository's framework guide quotes them from the validator
  module. A validation issue is a path and a message. The parsed value of either schema
  is an object with the recognised keys only; a key is absent (\<open>None\<close>) when the
  payload does not carry it.
\<close>

type_synonym issue = "string list \<times> string"

record userData =
  d_name :: "string option"
  d_email :: "string option"
  d_age :: "rat option"

definition invalid_type :: "string list \<Rightarrow> string \<Rightarrow> json \<Rightarrow> issue" where
  "invalid_type p expected v = (p, ''Expected '' @ expected @ '', received '' @ typeName v)"

text \<open>
  \<^verbatim>\<open>z.string().min(2, ...).max(50, ...)\<close>: a value that is not a string is one
  type issue; on a string every check runs and each failing check adds its issue.
\<close>

definition nameChecks :: "string \<Rightarrow> issue list" where
  "nameChecks s =
     (if length s < 2 then [([''name''], ''Name must be at least 2 characters'')] else []) @
     (if length s > 50 then [([''name''], ''Name must be less than 50 characters'')] else [])"

definition nameSchema :: "json \<Rightarrow> issue list + string" where
  "nameSchema v =
     (case v of
        JStr s \<Rightarrow> (if nameChecks s = [] then Inr s else Inl (nameChecks s))
      | _ \<Rightarrow> Inl [invalid_type [''name''] ''string'' v])"

text \<open>
  \<^verbatim>\<open>z.string().email('Invalid email format')\<close>. The shape test is the validation
  library's own; it is the parameter \<open>isEmail\<close> of everything below.
\<close>

definition emailChecks :: "(string \<Rightarrow> bool) \<Rightarrow> string \<Rightarrow> issue list" where
  "emailChecks isEmail s = (if isEmail s then [] else [([''email''], ''Invalid email format'')])"

definition emailSchema :: "(string \<Rightarrow> bool) \<Rightarrow> json \<Rightarrow> issue list + string" where
  "emailSchema isEmail v =
     (case v of
        JStr s \<Rightarrow> (if emailChecks isEmail s = [] then Inr s else Inl (emailChecks isEmail s))
      | _ \<Rightarrow> Inl [invalid_type [''email''] ''string'' v])"

text \<open>\<^verbatim>\<open>z.number().int(...).min(0, ...).max(150, ...)\<close>\<close>

definition ageChecks :: "rat \<Rightarrow> issue list" where
  "ageChecks q =
     (if of_int \<lfloor>q\<rfloor> = q then [] else [([''age''], ''Age must be an integer'')]) @
     (if q < 0 then [([''age''], ''Age cannot be negative'')] else []) @
     (if q > 150 then [([''age''], ''Age seems unrealistic'')] else [])"

definition ageSchema :: "json \<Rightarrow> issue list + rat" where
  "ageSchema v =
     (case v of
        JNum q \<Rightarrow> (if ageChecks q = [] then Inr q else Inl (ageChecks q))
      | _ \<Rightarrow> Inl [invalid_type [''age''] ''number'' v])"

text \<open>
  One key of an object schema. A missing key is accepted when the key is optional and is
  the issue \<open>Required\<close> otherwise; a present key is handed to the key's schema.
\<close>

definition field ::
  "bool \<Rightarrow> string list \<Rightarrow> (json \<Rightarrow> issue list + 'a) \<Rightarrow> json option \<Rightarrow> issue list + 'a option" where
  "field opt p schema v =
     (case v of
        None \<Rightarrow> (if opt then Inr None else Inl [(p, ''Required'')])
      | Some j \<Rightarrow> (case schema j of Inl is \<Rightarrow> Inl is | Inr x \<Rightarrow> Inr (Some x)))"

definition issuesOf :: "issue list + 'a \<Rightarrow> issue list" where
  "issuesOf r = (case r of Inl is \<Rightarrow> is | Inr _ \<Rightarrow> [])"

text \<open>
  \<^verbatim>\<open>z.object({name, email, age})\<close>: the keys are parsed in order, the issues of all of
  them are collected, unknown keys are dropped. \<open>partial\<close> makes \<open>name\<close> and \<open>email\<close>
  optional as well; \<open>age\<close> is optional in both schemas.
\<close>

definition userObject :: "(string \<Rightarrow> bool) \<Rightarrow> bool \<Rightarrow> json \<Rightarrow> issue list + userData" where
  "userObject isEmail partial b =
     (case b of
        JObj kvs \<Rightarrow>
          (let n = field partial [''name''] nameSchema (map_of kvs ''name'');
               e = field partial [''email''] (emailSchema isEmail) (map_of kvs ''email'');
               a = field True [''age''] ageSchema (map_of kvs ''age'')
           in case (n, e, a) of
                (Inr n', Inr e', Inr a') \<Rightarrow> Inr \<lparr>d_name = n', d_email = e', d_age = a'\<rparr>
              | _ \<Rightarrow> Inl (issuesOf n @ issuesOf e @ issuesOf a))
      | _ \<Rightarrow> Inl [invalid_type [] ''object'' b])"

definition createUserSchema :: "(string \<Rightarrow> bool) \<Rightarrow> json \<Rightarrow> issue list + userData" where
  "createUserSchema isEmail = userObject isEmail False"

text \<open>\<^verbatim>\<open>updateUserSchema = createUserSchema.partial()\<close>\<close>

definition updateUserSchema :: "(string \<Rightarrow> bool) \<Rightarrow> json \<Rightarrow> issue list + userData" where
  "updateUserSchema isEmail = userObject isEmail True"


section \<open>The User model (models/User.js) and its collection\<close>

text \<open>
  A stored document. An identifier is the 24 lower-case hexadecimal digits of an
  ObjectId; time stamps are milliseconds since the epoch. The collection is the list of
  its documents in insertion order.
\<close>

type_synonym objectId = string

record user =
  u_id :: objectId
  u_name :: string
  u_email :: string
  u_age :: "rat option"
  u_createdAt :: int
  u_updatedAt :: int

type_synonym collection = "user list"

text \<open>
  A thrown error object: the properties the server reads. The stack of an error raised by
  the object mapper is given by its first line only.
\<close>

record jsError =
  e_name :: string
  e_message :: string
  e_stack :: string
  e_status :: "nat option"

definition mkError :: "string \<Rightarrow> string \<Rightarrow> jsError" where
  "mkError nm msg =
     \<lparr>e_name = nm, e_message = msg, e_stack = nm @ '': '' @ msg, e_status = None\<rparr>"

definition castError :: "string \<Rightarrow> jsError" where
  "castError v =
     mkError ''CastError''
       (''Cast to ObjectId failed for value \"'' @ v @
        ''\" (type string) at path \"_id\" for model \"User\"'')"

fun pathMessages :: "string list \<Rightarrow> string" where
  "pathMessages [] = []"
| "pathMessages [p] = p @ '': Path `'' @ p @ ''` is required.''"
| "pathMessages (p # ps) = p @ '': Path `'' @ p @ ''` is required., '' @ pathMessages ps"

definition validationError :: "string \<Rightarrow> string list \<Rightarrow> jsError" where
  "validationError prefix paths = mkError ''ValidationError'' (prefix @ '': '' @ pathMessages paths)"

definition duplicateKeyError :: "string \<Rightarrow> jsError" where
  "duplicateKeyError e =
     mkError ''MongoServerError''
       (''E11000 duplicate key error collection: users index: email_1 dup key: { email: \"''
        @ e @ ''\" }'')"

text \<open>
  Casting a string to an identifier succeeds on 24 hexadecimal digits; the digits are
  compared without regard to case. Any other string is a cast error.
\<close>

definition isHex :: "char \<Rightarrow> bool" where
  "isHex c =
     (let n = (of_char c :: nat)
      in (48 \<le> n \<and> n \<le> 57) \<or> (65 \<le> n \<and> n \<le> 70) \<or> (97 \<le> n \<and> n \<le> 102))"

definition castObjectId :: "string \<Rightarrow> jsError + objectId" where
  "castObjectId s =
     (if length s = 24 \<and> list_all isHex s then Inr (toLowerCase s) else Inl (castError s))"

text \<open>
  The schema options of the model, as the framework guide quotes them from the model
  module: \<open>name\<close> is required and trimmed, \<open>email\<close> is required, unique and
  lower-cased, \<open>age\<close> has minimum 0, and the time stamps are kept by the mapper. The
  setters \<open>trim\<close> and \<open>lowercase\<close> run on a value before it is stored or validated,
  and on a value of a query filter before it is compared.
\<close>

definition applySetters :: "userData \<Rightarrow> userData" where
  "applySetters d =
     d\<lparr>d_name := map_option trim (d_name d), d_email := map_option toLowerCase (d_email d)\<rparr>"

definition requiredFails :: "string option \<Rightarrow> bool" where
  "requiredFails v = (case v of None \<Rightarrow> True | Some s \<Rightarrow> s = [])"

definition minFails :: "rat option \<Rightarrow> bool" where
  "minFails v = (case v of None \<Rightarrow> False | Some a \<Rightarrow> a < 0)"

text \<open>The paths of a new document that fail the schema's validators.\<close>

definition documentValidators :: "userData \<Rightarrow> string list" where
  "documentValidators d =
     (if requiredFails (d_name d) then [''name''] else []) @
     (if requiredFails (d_email d) then [''email''] else []) @
     (if minFails (d_age d) then [''age''] else [])"

text \<open>
  The validators of an update (\<^verbatim>\<open>runValidators: true\<close>) run on the paths the update
  sets, and on those only.
\<close>

definition updateValidators :: "userData \<Rightarrow> string list" where
  "updateValidators d =
     (if d_name d = Some [] then [''name''] else []) @
     (if d_email d = Some [] then [''email''] else []) @
     (if minFails (d_age d) then [''age''] else [])"

text \<open>\<^verbatim>\<open>User.findById(id)\<close>\<close>

definition findById :: "collection \<Rightarrow> string \<Rightarrow> jsError + user option" where
  "findById db i =
     (case castObjectId i of
        Inl err \<Rightarrow> Inl err
      | Inr oid \<Rightarrow> Inr (find (\<lambda>u. u_id u = oid) db))"

text \<open>\<^verbatim>\<open>User.findOne({ email })\<close>; a filter without a value for \<open>email\<close> matches no document.\<close>

definition findOne_email :: "collection \<Rightarrow> string option \<Rightarrow> user option" where
  "findOne_email db eo =
     (case eo of
        None \<Rightarrow> None
      | Some e \<Rightarrow> find (\<lambda>u. u_email u = toLowerCase e) db)"

text \<open>\<^verbatim>\<open>User.findOne({ email, _id: { $ne: id } })\<close>\<close>

definition findOne_email_ne :: "collection \<Rightarrow> string \<Rightarrow> string \<Rightarrow> jsError + user option" where
  "findOne_email_ne db e i =
     (case castObjectId i of
        Inl err \<Rightarrow> Inl err
      | Inr oid \<Rightarrow> Inr (find (\<lambda>u. u_email u = toLowerCase e \<and> u_id u \<noteq> oid) db))"

text \<open>\<^verbatim>\<open>User.find().sort({ createdAt: -1 })\<close>\<close>

definition find_sorted :: "collection \<Rightarrow> user list" where
  "find_sorted db = sort_key (\<lambda>u. - u_createdAt u) db"

text \<open>
  \<^verbatim>\<open>User.create(data)\<close>: the setters run, the document is validated, and the insert is
  refused by the unique index on \<open>email\<close> when the value is already stored. \<open>newId\<close> is
  the identifier the driver generates and \<open>now\<close> the time of the call.
\<close>

definition create :: "objectId \<Rightarrow> int \<Rightarrow> collection \<Rightarrow> userData \<Rightarrow> jsError + user \<times> collection" where
  "create newId now db d =
     (let d' = applySetters d
      in case (d_name d', d_email d') of
           (Some n, Some e) \<Rightarrow>
             if documentValidators d' \<noteq> []
             then Inl (validationError ''User validation failed'' (documentValidators d'))
             else if list_ex (\<lambda>u. u_email u = e) db then Inl (duplicateKeyError e)
             else
               (let u = \<lparr>u_id = newId, u_name = n, u_email = e, u_age = d_age d',
                         u_createdAt = now, u_updatedAt = now\<rparr>
                in Inr (u, db @ [u]))
         | _ \<Rightarrow> Inl (validationError ''User validation failed'' (documentValidators d')))"

text \<open>Replace the first document that satisfies \<open>P\<close>.\<close>

fun replaceFirst :: "(user \<Rightarrow> bool) \<Rightarrow> user \<Rightarrow> collection \<Rightarrow> collection" where
  "replaceFirst P u' [] = []"
| "replaceFirst P u' (u # us) = (if P u then u' # us else u # replaceFirst P u' us)"

text \<open>
  \<^verbatim>\<open>User.findByIdAndUpdate(id, data, { new: true, runValidators: true })\<close>: the filter is
  cast, the setters run on the update and its validators are checked; then the keys of the
  update are set on the first document with that identifier, \<open>updatedAt\<close> is set to the
  time of the call, and the document is returned as updated. The unique index on \<open>email\<close>
  refuses the write when the update sets \<open>email\<close> to a value that another document holds.
\<close>

definition findByIdAndUpdate ::
  "int \<Rightarrow> collection \<Rightarrow> string \<Rightarrow> userData \<Rightarrow> jsError + user option \<times> collection" where
  "findByIdAndUpdate now db i d =
     (case castObjectId i of
        Inl err \<Rightarrow> Inl err
      | Inr oid \<Rightarrow>
          (let d' = applySetters d
           in if updateValidators d' \<noteq> []
              then Inl (validationError ''Validation failed'' (updateValidators d'))
              else
                (case find (\<lambda>u. u_id u = oid) db of
                   None \<Rightarrow> Inr (None, db)
                 | Some u \<Rightarrow>
                     (let u' = u\<lparr>u_name := (case d_name d' of Some n \<Rightarrow> n | None \<Rightarrow> u_name u),
                                  u_email := (case d_email d' of Some e \<Rightarrow> e | None \<Rightarrow> u_email u),
                                  u_age := (case d_age d' of Some a \<Rightarrow> Some a | None \<Rightarrow> u_age u),
                                  u_updatedAt := now\<rparr>
                      in if (case d_email d' of
                               Some e \<Rightarrow> list_ex (\<lambda>x. u_id x \<noteq> oid \<and> u_email x = e) db
                             | None \<Rightarrow> False)
                         then Inl (duplicateKeyError (u_email u'))
                         else Inr (Some u', replaceFirst (\<lambda>x. u_id x = oid) u' db)))))"

text \<open>\<^verbatim>\<open>User.findByIdAndDelete(id)\<close>\<close>

definition findByIdAndDelete :: "collection \<Rightarrow> string \<Rightarrow> jsError + user option \<times> collection" where
  "findByIdAndDelete db i =
     (case castObjectId i of
        Inl err \<Rightarrow> Inl err
      | Inr oid \<Rightarrow>
          (case find (\<lambda>u. u_id u = oid) db of
             None \<Rightarrow> Inr (None, db)
           | Some u \<Rightarrow> Inr (Some u, remove1 u db)))"


section \<open>The request handlers (controllers/userController.js)\<close>

text \<open>
  The response envelope: a key that a response does not carry is \<open>None\<close>. A handler
  either sends a response or hands an error to the next middleware.
\<close>

datatype payload = DUser user | DUsers "user list"

record envelope =
  success :: bool
  message :: "string option"
  count :: "nat option"
  data :: "payload option"
  errors :: "issue list option"

record response =
  status :: nat
  body :: envelope

datatype handled = Sent response | Next jsError

definition failure :: "nat \<Rightarrow> string \<Rightarrow> response" where
  "failure st msg =
     \<lparr>status = st,
      body = \<lparr>success = False, message = Some msg, count = None, data = None, errors = None\<rparr>\<rparr>"

definition validationFailure :: "issue list \<Rightarrow> response" where
  "validationFailure issues =
     \<lparr>status = 400,
      body = \<lparr>success = False, message = Some ''Validation error'', count = None,
              data = None, errors = Some issues\<rparr>\<rparr>"

definition listUsers :: "collection \<Rightarrow> handled" where
  "listUsers db =
     (let users = find_sorted db
      in Sent \<lparr>status = 200,
               body = \<lparr>success = True, message = None, count = Some (length users),
                       data = Some (DUsers users), errors = None\<rparr>\<rparr>)"

text \<open>
  \<open>getUsers\<close>: the query parameter \<open>id\<close> is absent or a string, and the lookup branch is
  taken when it is truthy, that is a string that is not empty.
\<close>

definition getUsers :: "collection \<Rightarrow> string option \<Rightarrow> handled" where
  "getUsers db idq =
     (case idq of
        Some i \<Rightarrow>
          if i \<noteq> [] then
            (case findById db i of
               Inl err \<Rightarrow> Next err
             | Inr None \<Rightarrow> Sent (failure 404 ''User not found'')
             | Inr (Some u) \<Rightarrow>
                 Sent \<lparr>status = 200,
                       body = \<lparr>success = True, message = None, count = None,
                               data = Some (DUser u), errors = None\<rparr>\<rparr>)
          else listUsers db
      | None \<Rightarrow> listUsers db)"

definition createUser ::
  "(string \<Rightarrow> bool) \<Rightarrow> objectId \<Rightarrow> int \<Rightarrow> collection \<Rightarrow> json \<Rightarrow> handled \<times> collection" where
  "createUser isEmail newId now db b =
     (case createUserSchema isEmail b of
        Inl issues \<Rightarrow> (Sent (validationFailure issues), db)
      | Inr validatedData \<Rightarrow>
          (case findOne_email db (d_email validatedData) of
             Some existingUser \<Rightarrow>
               (Sent (failure 400 ''User with this email already exists''), db)
           | None \<Rightarrow>
               (case create newId now db validatedData of
                  Inl err \<Rightarrow> (Next err, db)
                | Inr (u, db') \<Rightarrow>
                    (Sent \<lparr>status = 201,
                           body = \<lparr>success = True, message = Some ''User created successfully'',
                                   count = None, data = Some (DUser u), errors = None\<rparr>\<rparr>,
                     db'))))"

text \<open>
  \<open>updateUser\<close>: the uniqueness check runs when the validated payload has a truthy
  \<open>email\<close>.
\<close>

definition emailInUse :: "collection \<Rightarrow> string \<Rightarrow> userData \<Rightarrow> jsError + user option" where
  "emailInUse db i validatedData =
     (case d_email validatedData of
        Some e \<Rightarrow> (if e \<noteq> [] then findOne_email_ne db e i else Inr None)
      | None \<Rightarrow> Inr None)"

definition updateUser ::
  "(string \<Rightarrow> bool) \<Rightarrow> int \<Rightarrow> collection \<Rightarrow> string \<Rightarrow> json \<Rightarrow> handled \<times> collection" where
  "updateUser isEmail now db i b =
     (case updateUserSchema isEmail b of
        Inl issues \<Rightarrow> (Sent (validationFailure issues), db)
      | Inr validatedData \<Rightarrow>
          (case emailInUse db i validatedData of
             Inl err \<Rightarrow> (Next err, db)
           | Inr (Some existingUser) \<Rightarrow>
               (Sent (failure 400 ''Email already in use by another user''), db)
           | Inr None \<Rightarrow>
               (case findByIdAndUpdate now db i validatedData of
                  Inl err \<Rightarrow> (Next err, db)
                | Inr (None, db') \<Rightarrow> (Sent (failure 404 ''User not found''), db')
                | Inr (Some u, db') \<Rightarrow>
                    (Sent \<lparr>status = 200,
                           body = \<lparr>success = True, message = Some ''User updated successfully'',
                                   count = None, data = Some (DUser u), errors = None\<rparr>\<rparr>,
                     db'))))"

definition deleteUser :: "collection \<Rightarrow> string \<Rightarrow> handled \<times> collection" where
  "deleteUser db i =
     (case findByIdAndDelete db i of
        Inl err \<Rightarrow> (Next err, db)
      | Inr (None, db') \<Rightarrow> (Sent (failure 404 ''User not found''), db')
      | Inr (Some u, db') \<Rightarrow>
          (Sent \<lparr>status = 200,
                 body = \<lparr>success = True, message = Some ''User deleted successfully'',
                         count = None, data = Some (DUser u), errors = None\<rparr>\<rparr>,
           db'))"


section \<open>The server (server.js)\<close>

text \<open>
  The error-handling middleware writes the stack of the error to the console and answers
  with the status of the error, or 500 when it has none, and with the message of the
  error, or a fixed text when it has none.
\<close>

definition errorMiddleware :: "jsError \<Rightarrow> string list \<Rightarrow> response \<times> string list" where
  "errorMiddleware err console =
     (failure
        (case e_status err of Some st \<Rightarrow> (if st \<noteq> 0 then st else 500) | None \<Rightarrow> 500)
        (if e_message err \<noteq> [] then e_message err else ''Internal Server Error''),
      console @ [e_stack err])"

text \<open>
  The routes of \<^verbatim>\<open>/api/users\<close> and the state of the server between requests. The
  \<open>id\<close> of a GET request is the query parameter, absent or a string; the \<open>id\<close> of a
  PUT or DELETE request is the path parameter.
\<close>

datatype request =
    GetUsers "string option"
  | PostUsers json
  | PutUsers string json
  | DeleteUsers string

record server =
  users :: collection
  console :: "string list"

definition respond :: "server \<Rightarrow> handled \<times> collection \<Rightarrow> response \<times> server" where
  "respond srv r =
     (case fst r of
        Sent res \<Rightarrow> (res, srv\<lparr>users := snd r\<rparr>)
      | Next err \<Rightarrow>
          (let (res, out) = errorMiddleware err (console srv)
           in (res, srv\<lparr>users := snd r, console := out\<rparr>)))"

definition route ::
  "(string \<Rightarrow> bool) \<Rightarrow> objectId \<Rightarrow> int \<Rightarrow> collection \<Rightarrow> request \<Rightarrow> handled \<times> collection" where
  "route isEmail newId now db req =
     (case req of
        GetUsers idq \<Rightarrow> (getUsers db idq, db)
      | PostUsers b \<Rightarrow> createUser isEmail newId now db b
      | PutUsers i b \<Rightarrow> updateUser isEmail now db i b
      | DeleteUsers i \<Rightarrow> deleteUser db i)"

definition app ::
  "(string \<Rightarrow> bool) \<Rightarrow> objectId \<Rightarrow> int \<Rightarrow> server \<Rightarrow> request \<Rightarrow> response \<times> server" where
  "app isEmail newId now srv req = respond srv (route isEmail newId now (users srv) req)"


section \<open>The collections the server reaches\<close>

text \<open>
  The data model's invariant: identifiers and emails are pairwise different and every
  email is stored in lower case. A collection is reachable when the routes produce it from
  the empty collection, with identifiers that the driver generates fresh.
\<close>

definition consistent :: "collection \<Rightarrow> bool" where
  "consistent db \<longleftrightarrow>
     distinct (map u_id db) \<and> distinct (map u_email db) \<and>
     list_all (\<lambda>u. toLowerCase (u_email u) = u_email u) db"

inductive reachable :: "(string \<Rightarrow> bool) \<Rightarrow> collection \<Rightarrow> bool" for isEmail where
  empty: "reachable isEmail []"
| step: "reachable isEmail db \<Longrightarrow> newId \<notin> u_id ` set db \<Longrightarrow>
         reachable isEmail (snd (route isEmail newId now db req))"


section \<open>A worked example\<close>

text \<open>
  The values of the scenarios: a shape test that asks for an at sign, a stored user, the
  payload of the create scenario, and a server that holds that user.
\<close>

definition hasAtSign :: "string \<Rightarrow> bool" where
  "hasAtSign s = (CHR ''@'' \<in> set s)"

definition exampleUser :: user where
  "exampleUser =
     \<lparr>u_id = ''0123456789abcdef01234567'', u_name = ''Jo'', u_email = ''a@b.com'',
      u_age = Some 30, u_createdAt = 1000, u_updatedAt = 1000\<rparr>"

definition examplePayload :: "(string \<times> json) list" where
  "examplePayload = [(''name'', JStr ''Jo''), (''email'', JStr ''A@B.com''), (''age'', JNum 30)]"

definition exampleServer :: server where
  "exampleServer = \<lparr>users = [exampleUser], console = []\<rparr>"


section \<open>What the schemas accept\<close>

lemma nameSchema_Inr:
  "nameSchema v = Inr s \<longleftrightarrow> v = JStr s \<and> 2 \<le> length s \<and> length s \<le> 50"
  by (cases v) (auto simp: nameSchema_def nameChecks_def invalid_type_def)

lemma emailSchema_Inr:
  "emailSchema isEmail v = Inr s \<longleftrightarrow> v = JStr s \<and> isEmail s"
  by (cases v) (auto simp: emailSchema_def emailChecks_def invalid_type_def)

lemma ageChecks_Nil: "ageChecks q = [] \<longleftrightarrow> q \<in> \<int> \<and> 0 \<le> q \<and> q \<le> 150"
proof -
  have "of_int \<lfloor>q\<rfloor> = q \<longleftrightarrow> q \<in> \<int>"
    by (metis Ints_of_int of_int_floor)
  then show ?thesis
    by (auto simp: ageChecks_def)
qed

lemma ageSchema_Inr:
  "ageSchema v = Inr q \<longleftrightarrow> v = JNum q \<and> q \<in> \<int> \<and> 0 \<le> q \<and> q \<le> 150"
  by (cases v) (auto simp: ageSchema_def ageChecks_Nil invalid_type_def)

lemma field_Inr:
  "field opt p schema v = Inr r \<longleftrightarrow>
     (v = None \<and> opt \<and> r = None) \<or> (\<exists>j x. v = Some j \<and> schema j = Inr x \<and> r = Some x)"
  by (auto simp: field_def split: option.splits sum.splits)

lemma userObject_Inr:
  "userObject isEmail partial b = Inr v \<longleftrightarrow>
     (\<exists>kvs. b = JObj kvs \<and>
        field partial [''name''] nameSchema (map_of kvs ''name'') = Inr (d_name v) \<and>
        field partial [''email''] (emailSchema isEmail) (map_of kvs ''email'') = Inr (d_email v) \<and>
        field True [''age''] ageSchema (map_of kvs ''age'') = Inr (d_age v))"
  by (cases b) (auto simp: userObject_def Let_def invalid_type_def split: sum.splits)

text \<open>The validated object carries a key exactly when the payload does.\<close>

lemma userObject_fields:
  assumes "userObject isEmail partial (JObj kvs) = Inr v"
  shows "d_name v = (case map_of kvs ''name'' of Some (JStr s) \<Rightarrow> Some s | _ \<Rightarrow> None)"
    and "d_email v = (case map_of kvs ''email'' of Some (JStr s) \<Rightarrow> Some s | _ \<Rightarrow> None)"
    and "d_age v = (case map_of kvs ''age'' of Some (JNum q) \<Rightarrow> Some q | _ \<Rightarrow> None)"
  using assms unfolding userObject_Inr field_Inr
  by (auto simp: nameSchema_Inr emailSchema_Inr ageSchema_Inr)

lemma userObject_email_ok:
  assumes "userObject isEmail partial (JObj kvs) = Inr v" and "d_email v = Some e"
  shows "isEmail e"
  using assms unfolding userObject_Inr field_Inr
  by (auto simp: emailSchema_Inr)

lemma userObject_age_ok:
  assumes "userObject isEmail partial b = Inr v"
  shows "\<not> minFails (d_age v)"
  using assms unfolding userObject_Inr field_Inr
  by (auto simp: ageSchema_Inr minFails_def)

text \<open>
  Claim C5. The create schema accepts a payload exactly when \<open>name\<close> is a string of
  length 2 to 50 (both included), \<open>email\<close> is a string of the right shape, and \<open>age\<close>
  is absent or an integer from 0 to 150 (both included). So a name of length 1 or 51 and
  an age of -1 or 151 are rejected, and a name of length 2 or 50 and an age of 0 or 150 are
  accepted.
\<close>

theorem createUserSchema_accepts:
  "(\<exists>v. createUserSchema isEmail (JObj kvs) = Inr v) \<longleftrightarrow>
     (\<exists>n. map_of kvs ''name'' = Some (JStr n) \<and> 2 \<le> length n \<and> length n \<le> 50) \<and>
     (\<exists>e. map_of kvs ''email'' = Some (JStr e) \<and> isEmail e) \<and>
     (map_of kvs ''age'' = None \<or>
      (\<exists>q. map_of kvs ''age'' = Some (JNum q) \<and> q \<in> \<int> \<and> 0 \<le> q \<and> q \<le> 150))"
  (is "?L \<longleftrightarrow> ?R")
proof
  assume ?L
  then obtain v where "createUserSchema isEmail (JObj kvs) = Inr v" ..
  then show ?R
    unfolding createUserSchema_def userObject_Inr field_Inr
    by (auto simp: nameSchema_Inr emailSchema_Inr ageSchema_Inr)
next
  assume r: ?R
  then obtain n e where n: "map_of kvs ''name'' = Some (JStr n)" "2 \<le> length n" "length n \<le> 50"
    and e: "map_of kvs ''email'' = Some (JStr e)" "isEmail e"
    by blast
  from r obtain a where a: "field True [''age''] ageSchema (map_of kvs ''age'') = Inr a"
    unfolding field_Inr by (auto simp: ageSchema_Inr)
  have "createUserSchema isEmail (JObj kvs) = Inr \<lparr>d_name = Some n, d_email = Some e, d_age = a\<rparr>"
    unfolding createUserSchema_def userObject_Inr field_Inr
    using n e a by (simp add: nameSchema_Inr emailSchema_Inr field_Inr)
  then show ?L ..
qed

theorem createUserSchema_accepts_witness:
  "(\<nexists>v. createUserSchema hasAtSign
          (JObj [(''name'', JStr ''J''), (''email'', JStr ''a@b.com'')]) = Inr v) \<and>
   (\<exists>v. createUserSchema hasAtSign
          (JObj [(''name'', JStr ''Jo''), (''email'', JStr ''a@b.com'')]) = Inr v) \<and>
   (\<exists>v. createUserSchema hasAtSign
          (JObj [(''name'', JStr (replicate 50 CHR ''x'')), (''email'', JStr ''a@b.com'')]) = Inr v) \<and>
   (\<nexists>v. createUserSchema hasAtSign
          (JObj [(''name'', JStr (replicate 51 CHR ''x'')), (''email'', JStr ''a@b.com'')]) = Inr v) \<and>
   (\<nexists>v. createUserSchema hasAtSign
          (JObj [(''name'', JStr ''Jo''), (''email'', JStr ''a@b.com''), (''age'', JNum (-1))]) = Inr v) \<and>
   (\<exists>v. createUserSchema hasAtSign
          (JObj [(''name'', JStr ''Jo''), (''email'', JStr ''a@b.com''), (''age'', JNum 0)]) = Inr v) \<and>
   (\<exists>v. createUserSchema hasAtSign
          (JObj [(''name'', JStr ''Jo''), (''email'', JStr ''a@b.com''), (''age'', JNum 150)]) = Inr v) \<and>
   (\<nexists>v. createUserSchema hasAtSign
          (JObj [(''name'', JStr ''Jo''), (''email'', JStr ''a@b.com''), (''age'', JNum 151)]) = Inr v)"
  unfolding createUserSchema_accepts
  by (simp add: hasAtSign_def)


section \<open>Payloads that fail validation\<close>

text \<open>
  Claim C8. When the payload fails the schema, the create handler and the update handler
  answer with the validation-error envelope that carries the issues, whatever the
  collection holds, and return the collection as it was; the server's state after the
  request is its state before.
\<close>

theorem invalid_payload_leaves_store:
  "(createUserSchema isEmail b = Inl issues \<longrightarrow>
      createUser isEmail newId now db b = (Sent (validationFailure issues), db) \<and>
      app isEmail newId now srv (PostUsers b) = (validationFailure issues, srv)) \<and>
   (updateUserSchema isEmail b = Inl issues \<longrightarrow>
      updateUser isEmail now db i b = (Sent (validationFailure issues), db) \<and>
      app isEmail newId now srv (PutUsers i b) = (validationFailure issues, srv))"
  by (simp add: createUser_def updateUser_def app_def route_def respond_def)

theorem invalid_payload_leaves_store_witness:
  "createUserSchema hasAtSign (JObj [(''email'', JStr ''A@B.com'')]) =
     Inl [([''name''], ''Required'')] \<and>
   createUser hasAtSign ''aaaaaaaaaaaaaaaaaaaaaaaa'' 2000 [exampleUser]
       (JObj [(''email'', JStr ''A@B.com'')]) =
     (Sent (validationFailure [([''name''], ''Required'')]), [exampleUser]) \<and>
   app hasAtSign ''aaaaaaaaaaaaaaaaaaaaaaaa'' 2000 exampleServer
       (PostUsers (JObj [(''email'', JStr ''A@B.com'')])) =
     (validationFailure [([''name''], ''Required'')], exampleServer) \<and>
   updateUserSchema hasAtSign (JObj [(''age'', JNum (-1))]) =
     Inl [([''age''], ''Age cannot be negative'')] \<and>
   updateUser hasAtSign 2000 [exampleUser] ''0123456789abcdef01234567''
       (JObj [(''age'', JNum (-1))]) =
     (Sent (validationFailure [([''age''], ''Age cannot be negative'')]), [exampleUser]) \<and>
   app hasAtSign ''aaaaaaaaaaaaaaaaaaaaaaaa'' 2000 exampleServer
       (PutUsers ''0123456789abcdef01234567'' (JObj [(''age'', JNum (-1))])) =
     (validationFailure [([''age''], ''Age cannot be negative'')], exampleServer)"
proof -
  have c: "createUserSchema hasAtSign (JObj [(''email'', JStr ''A@B.com'')]) =
             Inl [([''name''], ''Required'')]"
    by (simp add: createUserSchema_def userObject_def field_def emailSchema_def emailChecks_def
        hasAtSign_def issuesOf_def)
  have u: "updateUserSchema hasAtSign (JObj [(''age'', JNum (-1))]) =
             Inl [([''age''], ''Age cannot be negative'')]"
    by (simp add: updateUserSchema_def userObject_def field_def ageSchema_def ageChecks_def
        issuesOf_def)
  show ?thesis
    using invalid_payload_leaves_store [of hasAtSign "JObj [(''email'', JStr ''A@B.com'')]"
        "[([''name''], ''Required'')]" "''aaaaaaaaaaaaaaaaaaaaaaaa''" 2000 "[exampleUser]"
        exampleServer]
      invalid_payload_leaves_store [of hasAtSign "JObj [(''age'', JNum (-1))]"
        "[([''age''], ''Age cannot be negative'')]" "''aaaaaaaaaaaaaaaaaaaaaaaa''" 2000
        "[exampleUser]" exampleServer "''0123456789abcdef01234567''"]
      c u
    by simp
qed


section \<open>Listing\<close>

lemma find_sorted_mset: "mset (find_sorted db) = mset db"
  by (simp add: find_sorted_def)

lemma find_sorted_descending:
  "sorted_wrt (\<lambda>a b. u_createdAt b \<le> u_createdAt a) (find_sorted db)"
proof -
  have "sorted (map (\<lambda>u. - u_createdAt u) (find_sorted db))"
    by (simp add: find_sorted_def)
  then show ?thesis
    by (simp add: sorted_wrt_map)
qed

text \<open>
  Claim C9. Without an identifier the handler answers with status 200 and a success
  envelope whose data is a sequence holding exactly the documents of the collection
  (each as often as it is stored), in descending order of \<open>createdAt\<close>, and whose count
  is the length of that sequence. The sequence is empty exactly when the collection is,
  and the answer is then still the success envelope, with count 0.
\<close>

theorem getUsers_lists_all:
  "\<exists>xs. getUsers db None =
          Sent \<lparr>status = 200,
                body = \<lparr>success = True, message = None, count = Some (length xs),
                        data = Some (DUsers xs), errors = None\<rparr>\<rparr> \<and>
        mset xs = mset db \<and>
        sorted_wrt (\<lambda>a b. u_createdAt b \<le> u_createdAt a) xs \<and>
        (xs = [] \<longleftrightarrow> db = [])"
proof -
  have "mset (find_sorted db) = mset db"
    by (rule find_sorted_mset)
  moreover have "find_sorted db = [] \<longleftrightarrow> db = []"
    using find_sorted_mset [of db] by (metis mset_zero_iff)
  ultimately show ?thesis
    using find_sorted_descending [of db]
    by (intro exI [of _ "find_sorted db"]) (simp add: getUsers_def listUsers_def Let_def)
qed

theorem getUsers_lists_all_witness:
  "(\<exists>xs. getUsers [exampleUser, exampleUser\<lparr>u_createdAt := 3000\<rparr>] None =
          Sent \<lparr>status = 200,
                body = \<lparr>success = True, message = None, count = Some (length xs),
                        data = Some (DUsers xs), errors = None\<rparr>\<rparr> \<and>
        mset xs = mset [exampleUser, exampleUser\<lparr>u_createdAt := 3000\<rparr>] \<and>
        sorted_wrt (\<lambda>a b. u_createdAt b \<le> u_createdAt a) xs \<and> xs \<noteq> []) \<and>
   getUsers [] None =
     Sent \<lparr>status = 200,
           body = \<lparr>success = True, message = None, count = Some 0,
                   data = Some (DUsers []), errors = None\<rparr>\<rparr>"
  using getUsers_lists_all [of "[exampleUser, exampleUser\<lparr>u_createdAt := 3000\<rparr>]"]
    getUsers_lists_all [of "[]"]
  by auto

text \<open>
  Claim C10. A request whose \<open>id\<close> parameter is the empty string is answered as a
  request without the parameter: with the full-list envelope of status 200, a count and
  the sequence of all users, and neither with one user nor with the not-found envelope.
\<close>

theorem getUsers_empty_id_lists:
  "getUsers db (Some '''') = getUsers db None \<and>
   getUsers db (Some '''') =
     Sent \<lparr>status = 200,
           body = \<lparr>success = True, message = None, count = Some (length (find_sorted db)),
                   data = Some (DUsers (find_sorted db)), errors = None\<rparr>\<rparr>"
  by (simp add: getUsers_def listUsers_def Let_def)

theorem getUsers_empty_id_lists_witness:
  "getUsers [exampleUser] (Some '''') = getUsers [exampleUser] None \<and>
   getUsers [exampleUser] (Some '''') =
     Sent \<lparr>status = 200,
           body = \<lparr>success = True, message = None, count = Some 1,
                   data = Some (DUsers [exampleUser]), errors = None\<rparr>\<rparr>"
  using getUsers_empty_id_lists [of "[exampleUser]"]
  by (auto simp add: find_sorted_def)


section \<open>Creating a user\<close>

lemma toLowerCase_Nil_iff: "toLowerCase s = [] \<longleftrightarrow> s = []"
  by (simp add: toLowerCase_def)

lemma find_None_set: "find P xs = None \<longleftrightarrow> (\<forall>x\<in>set xs. \<not> P x)"
  by (auto simp: find_None_iff)

lemma find_Some_set: "find P xs = Some x \<Longrightarrow> x \<in> set xs \<and> P x"
  by (induction xs) (auto split: if_splits)

lemma toLowerCase_example:
  "toLowerCase ''A@B.com'' = ''a@b.com''" "toLowerCase ''a@b.com'' = ''a@b.com''"
  by code_simp+

lemma examplePayload_valid:
  "createUserSchema hasAtSign (JObj examplePayload) =
     Inr \<lparr>d_name = Some ''Jo'', d_email = Some ''A@B.com'', d_age = Some 30\<rparr>"
  by (simp add: createUserSchema_def userObject_def examplePayload_def field_def nameSchema_def
      nameChecks_def emailSchema_def emailChecks_def ageSchema_def ageChecks_def hasAtSign_def)

lemma trim_Jo: "trim ''Jo'' = ''Jo''"
  by (simp add: trim_def isWhiteSpace_def)


text \<open>
  Claim C1, as amended. When a user with the lower-case email \<open>e\<close> is stored and the
  payload passes the create schema with an email that differs from \<open>e\<close> in letter case
  only, the create handler answers with status 400 and the message
  \<open>User with this email already exists\<close>, and the collection and the server's state are
  left as they were.
\<close>

theorem createUser_conflict:
  assumes "createUserSchema isEmail (JObj kvs) = Inr v"
    and "map_of kvs ''email'' = Some (JStr e')"
    and "u \<in> set db" and "u_email u = e" and "toLowerCase e = e"
    and "toLowerCase e' = toLowerCase e"
    and "users srv = db"
  shows "createUser isEmail newId now db (JObj kvs) =
           (Sent (failure 400 ''User with this email already exists''), db) \<and>
         app isEmail newId now srv (PostUsers (JObj kvs)) =
           (failure 400 ''User with this email already exists'', srv)"
proof -
  have "d_email v = Some e'"
    using userObject_fields(2) [of isEmail False kvs v] assms(1,2)
    by (simp add: createUserSchema_def)
  moreover have "find (\<lambda>x. u_email x = toLowerCase e') db \<noteq> None"
    using assms(3-6) by (auto simp: find_None_set)
  ultimately have "createUser isEmail newId now db (JObj kvs) =
      (Sent (failure 400 ''User with this email already exists''), db)"
    using assms(1) by (auto simp: createUser_def findOne_email_def)
  then show ?thesis
    using assms(7) by (simp add: app_def route_def respond_def)
qed

theorem createUser_conflict_witness:
  "createUserSchema hasAtSign (JObj examplePayload) =
     Inr \<lparr>d_name = Some ''Jo'', d_email = Some ''A@B.com'', d_age = Some 30\<rparr> \<and>
   map_of examplePayload ''email'' = Some (JStr ''A@B.com'') \<and>
   exampleUser \<in> set [exampleUser] \<and> u_email exampleUser = ''a@b.com'' \<and>
   toLowerCase ''a@b.com'' = ''a@b.com'' \<and> toLowerCase ''A@B.com'' = toLowerCase ''a@b.com'' \<and>
   users exampleServer = [exampleUser] \<and>
   createUser hasAtSign ''aaaaaaaaaaaaaaaaaaaaaaaa'' 2000 [exampleUser] (JObj examplePayload) =
     (Sent (failure 400 ''User with this email already exists''), [exampleUser]) \<and>
   app hasAtSign ''aaaaaaaaaaaaaaaaaaaaaaaa'' 2000 exampleServer (PostUsers (JObj examplePayload)) =
     (failure 400 ''User with this email already exists'', exampleServer)"
proof -
  have h2: "map_of examplePayload ''email'' = Some (JStr ''A@B.com'')"
    by (simp add: examplePayload_def)
  have h3: "exampleUser \<in> set [exampleUser]" by simp
  have h4: "u_email exampleUser = ''a@b.com''" by (simp add: exampleUser_def)
  have h5: "toLowerCase ''a@b.com'' = ''a@b.com''" by (rule toLowerCase_example)
  have h6: "toLowerCase ''A@B.com'' = toLowerCase ''a@b.com''" by (simp add: toLowerCase_example)
  have h7: "users exampleServer = [exampleUser]" by (simp add: exampleServer_def)
  show ?thesis
    using createUser_conflict [OF examplePayload_valid h2 h3 h4 h5 h6 h7]
      examplePayload_valid h2 h4 h5 h6 h7
    by simp
qed

text \<open>
  The claim as first stated has no condition on the rest of the payload. With the example
  user stored, a payload that carries the email \<open>A@B.com\<close> and no name is answered with
  the validation-error envelope, not with the conflict envelope.
\<close>

theorem createUser_conflict_counterexample:
  "u_email exampleUser = ''a@b.com'' \<and>
   fst (createUser hasAtSign ''aaaaaaaaaaaaaaaaaaaaaaaa'' 2000 [exampleUser]
          (JObj [(''email'', JStr ''A@B.com'')])) =
     Sent (validationFailure [([''name''], ''Required'')]) \<and>
   fst (createUser hasAtSign ''aaaaaaaaaaaaaaaaaaaaaaaa'' 2000 [exampleUser]
          (JObj [(''email'', JStr ''A@B.com'')])) \<noteq>
     Sent (failure 400 ''User with this email already exists'')"
  by (simp add: createUser_def createUserSchema_def userObject_def field_def emailSchema_def
      emailChecks_def hasAtSign_def issuesOf_def validationFailure_def failure_def
      exampleUser_def)

text \<open>
  Claim C4, as amended. When the payload passes the create schema, its name is not made
  of white space only and no stored user holds its email in lower case, the create handler
  answers with status 201 and appends one document to the collection: its email is the
  payload's email in lower case, its name the trimmed name, its age the payload's, its
  identifier the generated one, and both time stamps are the time of the call. (The shape
  test is taken to reject the empty string.)
\<close>

theorem createUser_created:
  assumes "createUserSchema isEmail (JObj kvs) = Inr v"
    and "map_of kvs ''name'' = Some (JStr n)"
    and "map_of kvs ''email'' = Some (JStr e)"
    and "trim n \<noteq> []"
    and "\<not> isEmail []"
    and "\<forall>x\<in>set db. u_email x \<noteq> toLowerCase e"
  shows "\<exists>u. createUser isEmail newId now db (JObj kvs) =
               (Sent \<lparr>status = 201,
                      body = \<lparr>success = True, message = Some ''User created successfully'',
                              count = None, data = Some (DUser u), errors = None\<rparr>\<rparr>,
                db @ [u]) \<and>
             u_email u = toLowerCase e \<and> u_id u = newId \<and> u_name u = trim n \<and>
             u_age u = d_age v \<and> u_createdAt u = now \<and> u_updatedAt u = now"
proof -
  have uo: "userObject isEmail False (JObj kvs) = Inr v"
    using assms(1) by (simp add: createUserSchema_def)
  have dn: "d_name v = Some n" and de: "d_email v = Some e"
    using userObject_fields(1,2) [OF uo] assms(2,3) by simp_all
  have "isEmail e"
    using userObject_email_ok [OF uo de] .
  then have e: "e \<noteq> []"
    using assms(5) by auto
  have none: "findOne_email db (d_email v) = None"
    using assms(6) de by (simp add: findOne_email_def find_None_set)
  have val: "documentValidators (applySetters v) = []"
    using dn de e assms(4) userObject_age_ok [OF uo]
    by (simp add: documentValidators_def applySetters_def requiredFails_def toLowerCase_Nil_iff)
  have nodup: "\<not> list_ex (\<lambda>x. u_email x = toLowerCase e) db"
    using assms(6) by (simp add: list_ex_iff)
  define u where "u = \<lparr>u_id = newId, u_name = trim n, u_email = toLowerCase e, u_age = d_age v,
                         u_createdAt = now, u_updatedAt = now\<rparr>"
  have "create newId now db v = Inr (u, db @ [u])"
    using val nodup dn de by (simp add: create_def applySetters_def Let_def u_def)
  then have "createUser isEmail newId now db (JObj kvs) =
               (Sent \<lparr>status = 201,
                      body = \<lparr>success = True, message = Some ''User created successfully'',
                              count = None, data = Some (DUser u), errors = None\<rparr>\<rparr>,
                db @ [u])"
    using assms(1) none by (simp add: createUser_def)
  then show ?thesis
    by (intro exI [of _ u]) (simp add: u_def)
qed

theorem createUser_created_witness:
  "createUserSchema hasAtSign (JObj examplePayload) =
     Inr \<lparr>d_name = Some ''Jo'', d_email = Some ''A@B.com'', d_age = Some 30\<rparr> \<and>
   map_of examplePayload ''name'' = Some (JStr ''Jo'') \<and>
   map_of examplePayload ''email'' = Some (JStr ''A@B.com'') \<and>
   trim ''Jo'' \<noteq> [] \<and> \<not> hasAtSign [] \<and>
   (\<exists>u. createUser hasAtSign ''aaaaaaaaaaaaaaaaaaaaaaaa'' 2000 [] (JObj examplePayload) =
          (Sent \<lparr>status = 201,
                 body = \<lparr>success = True, message = Some ''User created successfully'',
                         count = None, data = Some (DUser u), errors = None\<rparr>\<rparr>,
           [] @ [u]) \<and>
        u_email u = ''a@b.com'' \<and> u_id u = ''aaaaaaaaaaaaaaaaaaaaaaaa'' \<and> u_name u = ''Jo'' \<and>
        u_age u = Some 30 \<and> u_createdAt u = 2000 \<and> u_updatedAt u = 2000)"
proof -
  have h2: "map_of examplePayload ''name'' = Some (JStr ''Jo'')"
    and h3: "map_of examplePayload ''email'' = Some (JStr ''A@B.com'')"
    by (simp_all add: examplePayload_def)
  have h4: "trim ''Jo'' \<noteq> []" by (simp add: trim_Jo)
  have h5: "\<not> hasAtSign []" by (simp add: hasAtSign_def)
  have h6: "\<forall>x\<in>set ([]::collection). u_email x \<noteq> toLowerCase ''A@B.com''" by simp
  show ?thesis
    using createUser_created [OF examplePayload_valid h2 h3 h4 h5 h6,
        of "''aaaaaaaaaaaaaaaaaaaaaaaa''" 2000]
      examplePayload_valid h2 h3 h5
    by (simp add: trim_Jo toLowerCase_example)
qed

text \<open>
  The claim as first stated promises status 201 for every payload that passes the schema.
  With the example user stored, the payload of the scenario passes the schema and is
  answered with status 400, and the collection is left as it was.
\<close>

theorem createUser_created_counterexample:
  "createUserSchema hasAtSign (JObj examplePayload) =
     Inr \<lparr>d_name = Some ''Jo'', d_email = Some ''A@B.com'', d_age = Some 30\<rparr> \<and>
   createUser hasAtSign ''aaaaaaaaaaaaaaaaaaaaaaaa'' 2000 [exampleUser] (JObj examplePayload) =
     (Sent (failure 400 ''User with this email already exists''), [exampleUser]) \<and>
   status (failure 400 ''User with this email already exists'') \<noteq> 201"
  by (simp add: examplePayload_valid createUser_def findOne_email_def toLowerCase_example
      exampleUser_def failure_def)


text \<open>
  A name of white space only passes the create schema, which does not trim, and fails the
  model's \<open>required\<close> validator once the setter has trimmed it; the handler hands the
  error on.
\<close>

lemma createUser_blank_name:
  "createUser hasAtSign ''aaaaaaaaaaaaaaaaaaaaaaaa'' 2000 []
     (JObj [(''name'', JStr ''  ''), (''email'', JStr ''A@B.com'')]) =
     (Next (validationError ''User validation failed'' [''name'']), [])"
  by (simp add: createUser_def createUserSchema_def userObject_def field_def nameSchema_def
      nameChecks_def emailSchema_def emailChecks_def hasAtSign_def findOne_email_def create_def
      applySetters_def documentValidators_def requiredFails_def minFails_def trim_def
      isWhiteSpace_def Let_def toLowerCase_Nil_iff)


section \<open>The invariant of the collection\<close>

lemma lowerChar_idem: "lowerChar (lowerChar c) = lowerChar c"
proof -
  have "of_char (char_of (of_char c + 32 :: nat)) = (of_char c + 32 :: nat)"
    if "(of_char c :: nat) \<le> 222"
    using that by simp
  then show ?thesis
    by (auto simp: lowerChar_def Let_def)
qed

lemma toLowerCase_idem: "toLowerCase (toLowerCase s) = toLowerCase s"
  by (simp add: toLowerCase_def lowerChar_idem)

lemma set_replaceFirst: "set (replaceFirst P u' db) \<subseteq> insert u' (set db)"
  by (induction db) auto

lemma replaceFirst_map:
  assumes "\<And>x. x \<in> set db \<Longrightarrow> P x \<Longrightarrow> f x = k" and "distinct (map f db)" and "f u' = k'"
    and "\<And>x. x \<in> set db \<Longrightarrow> \<not> P x \<Longrightarrow> f x \<noteq> k'"
  shows "distinct (map f (replaceFirst P u' db))"
  using assms
proof (induction db)
  case Nil
  then show ?case by simp
next
  case (Cons a db)
  show ?case
  proof (cases "P a")
    case True
    have "f x \<noteq> k'" if "x \<in> set db" for x
    proof (cases "P x")
      case True
      then have "f x = k" "f a = k"
        using Cons.prems(1) that \<open>P a\<close> by auto
      then show ?thesis
        using Cons.prems(2) that by auto
    next
      case False
      then show ?thesis
        using Cons.prems(4) that by auto
    qed
    then have "k' \<notin> f ` set db"
      by blast
    then show ?thesis
      using True Cons.prems(2,3) by simp
  next
    case False
    have ih: "distinct (map f (replaceFirst P u' db))"
      using Cons by auto
    have "f a \<noteq> f y" if "y \<in> set (replaceFirst P u' db)" for y
    proof -
      have "y = u' \<or> y \<in> set db"
        using that set_replaceFirst [of P u' db] by auto
      then show ?thesis
        using Cons.prems(2,3,4) False by (metis distinct.simps(2) image_eqI list.set_intros(1) list.simps(9) list.set_map)
    qed
    then show ?thesis
      using False ih by auto
  qed
qed

lemma distinct_map_remove1: "distinct (map f xs) \<Longrightarrow> distinct (map f (remove1 x xs))"
proof (induction xs)
  case Nil
  then show ?case by simp
next
  case (Cons a xs)
  have "set (remove1 x xs) \<subseteq> set xs"
    by (rule set_remove1_subset)
  then show ?case
    using Cons by auto
qed

lemma consistent_Nil: "consistent []"
  by (simp add: consistent_def)

lemma create_consistent:
  assumes "consistent db" and "newId \<notin> u_id ` set db"
    and "create newId now db d = Inr (u, db')"
  shows "consistent db'"
proof -
  obtain n e where ne: "d_name (applySetters d) = Some n" "d_email (applySetters d) = Some e"
    using assms(3) by (auto simp: create_def Let_def split: option.splits)
  have fresh: "\<not> list_ex (\<lambda>x. u_email x = e) db"
    and u: "u_id u = newId" "u_email u = e" and db': "db' = db @ [u]"
    using assms(3) ne by (auto simp: create_def Let_def split: if_splits)
  obtain e0 where "e = toLowerCase e0"
    using ne(2) by (auto simp: applySetters_def)
  then have "toLowerCase e = e"
    by (simp add: toLowerCase_idem)
  then show ?thesis
    using assms(1,2) fresh u db' by (auto simp: consistent_def list_ex_iff)
qed

lemma createUser_consistent:
  assumes "consistent db" and "newId \<notin> u_id ` set db"
  shows "consistent (snd (createUser isEmail newId now db b))"
  using assms create_consistent [OF assms]
  by (auto simp: createUser_def split: sum.splits option.splits prod.splits)

lemma findByIdAndUpdate_consistent:
  assumes "consistent db" and "findByIdAndUpdate now db i d = Inr (r, db')"
  shows "consistent db'"
proof -
  obtain oid where oid: "castObjectId i = Inr oid"
    using assms(2) by (auto simp: findByIdAndUpdate_def split: sum.splits)
  show ?thesis
  proof (cases "find (\<lambda>x. u_id x = oid) db")
    case None
    then have "db' = db"
      using assms(2) oid by (auto simp: findByIdAndUpdate_def Let_def split: if_splits)
    then show ?thesis
      using assms(1) by simp
  next
    case (Some u)
    define d' where "d' = applySetters d"
    define u' where
      "u' = u\<lparr>u_name := (case d_name d' of Some n \<Rightarrow> n | None \<Rightarrow> u_name u),
              u_email := (case d_email d' of Some e \<Rightarrow> e | None \<Rightarrow> u_email u),
              u_age := (case d_age d' of Some a \<Rightarrow> Some a | None \<Rightarrow> u_age u),
              u_updatedAt := now\<rparr>"
    have index: "\<not> (case d_email d' of
                       Some e \<Rightarrow> list_ex (\<lambda>x. u_id x \<noteq> oid \<and> u_email x = e) db
                     | None \<Rightarrow> False)"
      and db': "db' = replaceFirst (\<lambda>x. u_id x = oid) u' db"
      using assms(2) oid Some
      by (auto simp: findByIdAndUpdate_def Let_def d'_def u'_def split: if_splits)
    have u: "u \<in> set db" "u_id u = oid"
      using find_Some_iff [of "\<lambda>x. u_id x = oid" db u] Some by auto
    have ids: "distinct (map u_id db)" and emails: "distinct (map u_email db)"
      and lower: "\<forall>x\<in>set db. toLowerCase (u_email x) = u_email x"
      using assms(1) by (simp_all add: consistent_def list_all_iff)
    have only: "x = u" if "x \<in> set db" "u_id x = oid" for x
      using that u ids by (auto simp: distinct_map dest: inj_onD)
    have "distinct (map u_id db')"
      unfolding db'
      by (rule replaceFirst_map [where k = oid and k' = oid]) (use ids in \<open>auto simp: u'_def u\<close>)
    moreover have "distinct (map u_email db')"
      unfolding db'
    proof (rule replaceFirst_map [where k = "u_email u" and k' = "u_email u'"])
      show "u_email x = u_email u" if "x \<in> set db" "u_id x = oid" for x
        using only [OF that] by simp
      show "distinct (map u_email db)"
        by (rule emails)
      show "u_email u' = u_email u'" ..
      show "u_email x \<noteq> u_email u'" if "x \<in> set db" "u_id x \<noteq> oid" for x
      proof (cases "d_email d'")
        case None
        have "x \<noteq> u"
          using that(2) u(2) by auto
        then have "u_email x \<noteq> u_email u"
          using that(1) u(1) emails by (auto simp: distinct_map dest: inj_onD)
        then show ?thesis
          using None by (simp add: u'_def)
      next
        case (Some e)
        then show ?thesis
          using index that by (auto simp: u'_def list_ex_iff)
      qed
    qed
    moreover have "toLowerCase (u_email u') = u_email u'"
    proof (cases "d_email d")
      case None
      then show ?thesis
        using lower u(1) by (simp add: u'_def d'_def applySetters_def)
    next
      case (Some e)
      then show ?thesis
        by (simp add: u'_def d'_def applySetters_def toLowerCase_idem)
    qed
    then have "\<forall>x\<in>set db'. toLowerCase (u_email x) = u_email x"
      using lower set_replaceFirst [of "\<lambda>x. u_id x = oid" u' db] unfolding db' by auto
    ultimately show ?thesis
      by (simp add: consistent_def list_all_iff)
  qed
qed

lemma updateUser_consistent:
  assumes "consistent db"
  shows "consistent (snd (updateUser isEmail now db i b))"
  using assms findByIdAndUpdate_consistent [OF assms]
  by (auto simp: updateUser_def split: sum.splits option.splits prod.splits)

lemma deleteUser_consistent:
  assumes "consistent db"
  shows "consistent (snd (deleteUser db i))"
proof -
  have "consistent (remove1 u db)" for u
    using assms set_remove1_subset [of u db]
    by (auto simp: consistent_def list_all_iff distinct_map_remove1)
  then show ?thesis
    using assms
    by (auto simp: deleteUser_def findByIdAndDelete_def split: sum.splits option.splits)
qed

lemma route_consistent:
  assumes "consistent db" and "newId \<notin> u_id ` set db"
  shows "consistent (snd (route isEmail newId now db req))"
  using assms createUser_consistent updateUser_consistent deleteUser_consistent
  by (cases req) (simp_all add: route_def)

text \<open>Every reachable collection satisfies the invariant.\<close>

lemma reachable_consistent: "reachable isEmail db \<Longrightarrow> consistent db"
  by (induction rule: reachable.induct) (simp_all add: consistent_Nil route_consistent)


section \<open>Updating a user\<close>

lemma castObjectId_example:
  "castObjectId ''0123456789abcdef01234567'' = Inr ''0123456789abcdef01234567''"
  by code_simp

text \<open>
  In a collection whose emails are pairwise different and in which the user \<open>u\<close> is
  stored with a lower-case email, the uniqueness check of an update for \<open>u\<close> with its
  own email finds no record: the filter leaves out the record of \<open>u\<close> itself.
\<close>

lemma own_email_not_in_use:
  assumes "distinct (map u_email db)"
    and "u \<in> set db"
    and "castObjectId i = Inr (u_id u)"
    and "toLowerCase (u_email u) = u_email u"
    and "d_email v = Some (u_email u)"
  shows "emailInUse db i v = Inr None"
proof -
  have "x = u" if "x \<in> set db" "u_email x = u_email u" for x
    using that assms(1,2) by (auto simp: distinct_map dest: inj_onD)
  then have "find (\<lambda>x. u_email x = u_email u \<and> u_id x \<noteq> u_id u) db = None"
    by (auto simp: find_None_set)
  then show ?thesis
    using assms(3,4,5) by (simp add: emailInUse_def findOne_email_ne_def)
qed

lemma exampleUser_reachable: "reachable hasAtSign [exampleUser]"
proof -
  have "snd (route hasAtSign ''0123456789abcdef01234567'' 1000 []
               (PostUsers (JObj [(''name'', JStr ''Jo''), (''email'', JStr ''a@b.com''),
                                 (''age'', JNum 30)]))) = [exampleUser]"
    by (simp add: route_def createUser_def createUserSchema_def userObject_def field_def
        nameSchema_def nameChecks_def emailSchema_def emailChecks_def ageSchema_def
        ageChecks_def hasAtSign_def findOne_email_def create_def applySetters_def
        documentValidators_def requiredFails_def minFails_def trim_Jo toLowerCase_example
        exampleUser_def Let_def)
  moreover have "reachable hasAtSign
      (snd (route hasAtSign ''0123456789abcdef01234567'' 1000 []
               (PostUsers (JObj [(''name'', JStr ''Jo''), (''email'', JStr ''a@b.com''),
                                 (''age'', JNum 30)]))))"
    by (rule reachable.step [OF reachable.empty]) simp
  ultimately show ?thesis
    by simp
qed

text \<open>
  Claim C6. In every reachable collection and for every user \<open>u\<close> stored in it, an
  update request for the identifier of \<open>u\<close> whose payload carries the email of \<open>u\<close>
  is never answered with the conflict envelope: when the payload passes the schema, the
  uniqueness check finds no other record and the handler goes on to the update.
\<close>

theorem updateUser_own_email:
  assumes "reachable isEmail db"
    and "u \<in> set db"
    and "castObjectId i = Inr (u_id u)"
    and "map_of kvs ''email'' = Some (JStr (u_email u))"
  shows "fst (updateUser isEmail now db i (JObj kvs)) \<noteq>
           Sent (failure 400 ''Email already in use by another user'') \<and>
         (\<forall>v. updateUserSchema isEmail (JObj kvs) = Inr v \<longrightarrow>
              d_email v = Some (u_email u) \<and> emailInUse db i v = Inr None \<and>
              updateUser isEmail now db i (JObj kvs) =
                (case findByIdAndUpdate now db i v of
                   Inl err \<Rightarrow> (Next err, db)
                 | Inr (None, db') \<Rightarrow> (Sent (failure 404 ''User not found''), db')
                 | Inr (Some u', db') \<Rightarrow>
                     (Sent \<lparr>status = 200,
                            body = \<lparr>success = True,
                                    message = Some ''User updated successfully'',
                                    count = None, data = Some (DUser u'), errors = None\<rparr>\<rparr>,
                      db')))"
proof -
  have inv: "distinct (map u_email db)" "toLowerCase (u_email u) = u_email u"
    using reachable_consistent [OF assms(1)] assms(2)
    by (simp_all add: consistent_def list_all_iff)
  have check: "d_email v = Some (u_email u) \<and> emailInUse db i v = Inr None"
    if v: "updateUserSchema isEmail (JObj kvs) = Inr v" for v
  proof -
    have "d_email v = Some (u_email u)"
      using userObject_fields(2) [of isEmail True kvs v] v assms(4)
      by (simp add: updateUserSchema_def)
    then show ?thesis
      using own_email_not_in_use [OF inv(1) assms(2,3) inv(2)] by simp
  qed
  have goes_on: "updateUser isEmail now db i (JObj kvs) =
                (case findByIdAndUpdate now db i v of
                   Inl err \<Rightarrow> (Next err, db)
                 | Inr (None, db') \<Rightarrow> (Sent (failure 404 ''User not found''), db')
                 | Inr (Some u', db') \<Rightarrow>
                     (Sent \<lparr>status = 200,
                            body = \<lparr>success = True,
                                    message = Some ''User updated successfully'',
                                    count = None, data = Some (DUser u'), errors = None\<rparr>\<rparr>,
                      db'))"
    if v: "updateUserSchema isEmail (JObj kvs) = Inr v" for v
    using v check [OF v] by (simp add: updateUser_def)
  have "fst (updateUser isEmail now db i (JObj kvs)) \<noteq>
          Sent (failure 400 ''Email already in use by another user'')"
  proof (cases "updateUserSchema isEmail (JObj kvs)")
    case (Inl issues)
    then show ?thesis
      by (simp add: updateUser_def validationFailure_def failure_def)
  next
    case (Inr v)
    then show ?thesis
      using check [OF Inr]
      by (auto simp: updateUser_def failure_def split: sum.splits option.splits prod.splits)
  qed
  then show ?thesis
    using check goes_on by blast
qed

theorem updateUser_own_email_witness:
  "reachable hasAtSign [exampleUser] \<and> exampleUser \<in> set [exampleUser] \<and>
   castObjectId ''0123456789abcdef01234567'' = Inr (u_id exampleUser) \<and>
   map_of [(''email'', JStr ''a@b.com'')] ''email'' = Some (JStr (u_email exampleUser)) \<and>
   fst (updateUser hasAtSign 2000 [exampleUser] ''0123456789abcdef01234567''
          (JObj [(''email'', JStr ''a@b.com'')])) \<noteq>
     Sent (failure 400 ''Email already in use by another user'')"
proof -
  have h2: "exampleUser \<in> set [exampleUser]" by simp
  have h3: "castObjectId ''0123456789abcdef01234567'' = Inr (u_id exampleUser)"
    by (simp add: castObjectId_example exampleUser_def)
  have h4: "map_of [(''email'', JStr ''a@b.com'')] ''email'' = Some (JStr (u_email exampleUser))"
    by (simp add: exampleUser_def)
  show ?thesis
    using updateUser_own_email [OF exampleUser_reachable h2 h3 h4, of 2000]
      exampleUser_reachable h3 h4
    by simp
qed

lemma find_example:
  "find (\<lambda>x. u_id x = ''0123456789abcdef01234567'') [exampleUser] = Some exampleUser"
  by (simp add: exampleUser_def)

lemma agePayload_valid:
  "updateUserSchema hasAtSign (JObj [(''age'', JNum 31)]) =
     Inr \<lparr>d_name = None, d_email = None, d_age = Some 31\<rparr>"
  by (simp add: updateUserSchema_def userObject_def field_def ageSchema_def ageChecks_def)

text \<open>
  Claim C7, as amended. Let the identifier of the request be well formed and \<open>u\<close> the
  stored user it denotes, let the payload pass the update schema, let no other user hold
  the payload's email in lower case, and let the payload's name not be made of white space
  only. Then the update handler answers with status 200 and the updated user, which
  replaces \<open>u\<close> in the collection: a key that the payload lacks keeps the value it had,
  a key that it carries takes the payload's value (the name trimmed, the email in lower
  case), \<open>updatedAt\<close> is the time of the call, and the identifier and \<open>createdAt\<close> are
  those of \<open>u\<close>. (The shape test is taken to reject the empty string.)
\<close>

theorem updateUser_partial:
  assumes "updateUserSchema isEmail (JObj kvs) = Inr v"
    and "castObjectId i = Inr oid"
    and "find (\<lambda>x. u_id x = oid) db = Some u"
    and "\<forall>x\<in>set db. \<forall>e. u_id x \<noteq> oid \<and> map_of kvs ''email'' = Some (JStr e) \<longrightarrow>
           u_email x \<noteq> toLowerCase e"
    and "\<forall>n. map_of kvs ''name'' = Some (JStr n) \<longrightarrow> trim n \<noteq> []"
    and "\<not> isEmail []"
  shows "\<exists>u'. updateUser isEmail now db i (JObj kvs) =
                (Sent \<lparr>status = 200,
                       body = \<lparr>success = True, message = Some ''User updated successfully'',
                               count = None, data = Some (DUser u'), errors = None\<rparr>\<rparr>,
                 replaceFirst (\<lambda>x. u_id x = oid) u' db) \<and>
              u_id u' = u_id u \<and> u_createdAt u' = u_createdAt u \<and> u_updatedAt u' = now \<and>
              u_name u' = (case d_name v of None \<Rightarrow> u_name u | Some n \<Rightarrow> trim n) \<and>
              u_email u' = (case d_email v of None \<Rightarrow> u_email u | Some e \<Rightarrow> toLowerCase e) \<and>
              u_age u' = (case d_age v of None \<Rightarrow> u_age u | Some a \<Rightarrow> Some a) \<and>
              (map_of kvs ''name'' = None \<longrightarrow> u_name u' = u_name u) \<and>
              (map_of kvs ''email'' = None \<longrightarrow> u_email u' = u_email u) \<and>
              (map_of kvs ''age'' = None \<longrightarrow> u_age u' = u_age u)"
proof -
  have uo: "userObject isEmail True (JObj kvs) = Inr v"
    using assms(1) by (simp add: updateUserSchema_def)
  note flds = userObject_fields [OF uo]
  have name_ok: "trim n \<noteq> []" if "d_name v = Some n" for n
    using that flds(1) assms(5) by (auto split: option.splits json.splits)
  have email_ok: "e \<noteq> []" if "d_email v = Some e" for e
    using userObject_email_ok [OF uo that] assms(6) by auto
  have email_raw: "map_of kvs ''email'' = Some (JStr e)" if "d_email v = Some e" for e
    using that flds(2) by (auto split: option.splits json.splits)
  have free: "\<not> (u_email x = toLowerCase e \<and> u_id x \<noteq> oid)"
    if "x \<in> set db" "d_email v = Some e" for x e
    using assms(4) that(1) email_raw [OF that(2)] by blast
  have check: "emailInUse db i v = Inr None"
    using free assms(2) email_ok
    by (auto simp: emailInUse_def findOne_email_ne_def find_None_set split: option.splits)
  have val: "updateValidators (applySetters v) = []"
    using name_ok email_ok userObject_age_ok [OF uo]
    by (auto simp: updateValidators_def applySetters_def toLowerCase_Nil_iff)
  define u' where
    "u' = u\<lparr>u_name := (case d_name v of None \<Rightarrow> u_name u | Some n \<Rightarrow> trim n),
            u_email := (case d_email v of None \<Rightarrow> u_email u | Some e \<Rightarrow> toLowerCase e),
            u_age := (case d_age v of None \<Rightarrow> u_age u | Some a \<Rightarrow> Some a),
            u_updatedAt := now\<rparr>"
  have same:
    "(case d_name (applySetters v) of Some n \<Rightarrow> n | None \<Rightarrow> u_name u) =
       (case d_name v of None \<Rightarrow> u_name u | Some n \<Rightarrow> trim n)"
    "(case d_email (applySetters v) of Some e \<Rightarrow> e | None \<Rightarrow> u_email u) =
       (case d_email v of None \<Rightarrow> u_email u | Some e \<Rightarrow> toLowerCase e)"
    "(case d_age (applySetters v) of Some a \<Rightarrow> Some a | None \<Rightarrow> u_age u) =
       (case d_age v of None \<Rightarrow> u_age u | Some a \<Rightarrow> Some a)"
    by (auto simp: applySetters_def split: option.splits)
  have index: "\<not> (case d_email (applySetters v) of
                       Some e \<Rightarrow> list_ex (\<lambda>x. u_id x \<noteq> oid \<and> u_email x = e) db
                     | None \<Rightarrow> False)"
    using free by (auto simp: list_ex_iff applySetters_def split: option.splits)
  have upd: "findByIdAndUpdate now db i v =
               Inr (Some u', replaceFirst (\<lambda>x. u_id x = oid) u' db)"
    using assms(2,3) val index unfolding findByIdAndUpdate_def u'_def same [symmetric]
    by (simp add: Let_def)
  have "updateUser isEmail now db i (JObj kvs) =
          (Sent \<lparr>status = 200,
                 body = \<lparr>success = True, message = Some ''User updated successfully'',
                         count = None, data = Some (DUser u'), errors = None\<rparr>\<rparr>,
           replaceFirst (\<lambda>x. u_id x = oid) u' db)"
    using assms(1) check upd by (simp add: updateUser_def)
  moreover have "map_of kvs ''name'' = None \<longrightarrow> d_name v = None"
    "map_of kvs ''email'' = None \<longrightarrow> d_email v = None"
    "map_of kvs ''age'' = None \<longrightarrow> d_age v = None"
    using flds by simp_all
  ultimately show ?thesis
    by (intro exI [of _ u']) (auto simp: u'_def)
qed

theorem updateUser_partial_witness:
  "updateUserSchema hasAtSign (JObj [(''age'', JNum 31)]) =
     Inr \<lparr>d_name = None, d_email = None, d_age = Some 31\<rparr> \<and>
   castObjectId ''0123456789abcdef01234567'' = Inr ''0123456789abcdef01234567'' \<and>
   find (\<lambda>x. u_id x = ''0123456789abcdef01234567'') [exampleUser] = Some exampleUser \<and>
   \<not> hasAtSign [] \<and>
   updateUser hasAtSign 2000 [exampleUser] ''0123456789abcdef01234567''
       (JObj [(''age'', JNum 31)]) =
     (Sent \<lparr>status = 200,
            body = \<lparr>success = True, message = Some ''User updated successfully'', count = None,
                    data = Some (DUser (exampleUser\<lparr>u_age := Some 31, u_updatedAt := 2000\<rparr>)),
                    errors = None\<rparr>\<rparr>,
      [exampleUser\<lparr>u_age := Some 31, u_updatedAt := 2000\<rparr>])"
proof -
  have h4: "\<forall>x\<in>set [exampleUser]. \<forall>e. u_id x \<noteq> ''0123456789abcdef01234567'' \<and>
              map_of [(''age'', JNum 31)] ''email'' = Some (JStr e) \<longrightarrow>
              u_email x \<noteq> toLowerCase e"
    by simp
  have h5: "\<forall>n. map_of [(''age'', JNum 31)] ''name'' = Some (JStr n) \<longrightarrow> trim n \<noteq> []"
    by simp
  have h6: "\<not> hasAtSign []" by (simp add: hasAtSign_def)
  obtain u' where
    r: "updateUser hasAtSign 2000 [exampleUser] ''0123456789abcdef01234567''
            (JObj [(''age'', JNum 31)]) =
          (Sent \<lparr>status = 200,
                 body = \<lparr>success = True, message = Some ''User updated successfully'',
                         count = None, data = Some (DUser u'), errors = None\<rparr>\<rparr>,
           replaceFirst (\<lambda>x. u_id x = ''0123456789abcdef01234567'') u' [exampleUser])"
    and f: "u_id u' = u_id exampleUser" "u_createdAt u' = u_createdAt exampleUser"
      "u_updatedAt u' = 2000" "u_name u' = u_name exampleUser" "u_email u' = u_email exampleUser"
      "u_age u' = Some 31"
    using updateUser_partial [OF agePayload_valid castObjectId_example find_example h4 h5 h6,
        of 2000]
    by auto
  have "u' = exampleUser\<lparr>u_age := Some 31, u_updatedAt := 2000\<rparr>"
    using f by (cases u') (simp add: exampleUser_def)
  then show ?thesis
    using r agePayload_valid castObjectId_example find_example h6
    by (simp add: exampleUser_def)
qed

text \<open>
  The claim as first stated promises status 200 and a fresh \<open>updatedAt\<close> for every
  payload. The payload with age -1 for the example user is answered with the
  validation-error envelope of status 400, and the stored user keeps its \<open>updatedAt\<close>.
\<close>

theorem updateUser_partial_counterexample:
  "fst (updateUser hasAtSign 2000 [exampleUser] ''0123456789abcdef01234567''
          (JObj [(''age'', JNum (-1))])) =
     Sent (validationFailure [([''age''], ''Age cannot be negative'')]) \<and>
   status (validationFailure [([''age''], ''Age cannot be negative'')]) = 400 \<and>
   snd (updateUser hasAtSign 2000 [exampleUser] ''0123456789abcdef01234567''
          (JObj [(''age'', JNum (-1))])) = [exampleUser] \<and>
   u_updatedAt exampleUser = 1000"
  by (simp add: updateUser_def updateUserSchema_def userObject_def field_def ageSchema_def
      ageChecks_def issuesOf_def validationFailure_def exampleUser_def)


section \<open>Identifiers that denote no user\<close>

lemma castObjectId_bogus: "castObjectId ''bogus'' = Inl (castError ''bogus'')"
  by (simp add: castObjectId_def)

text \<open>
  A well-formed identifier that no stored user has is answered with the not-found
  envelope by the lookup and by the delete handler.
\<close>

lemma absent_id_not_found:
  assumes "castObjectId i = Inr oid" and "\<forall>x\<in>set db. u_id x \<noteq> oid"
  shows "getUsers db (Some i) = Sent (failure 404 ''User not found'')"
    and "deleteUser db i = (Sent (failure 404 ''User not found''), db)"
proof -
  have "i \<noteq> []"
    using assms(1) by (auto simp: castObjectId_def split: if_splits)
  moreover have "find (\<lambda>u. u_id u = oid) db = None"
    using assms(2) by (simp add: find_None_set)
  ultimately show "getUsers db (Some i) = Sent (failure 404 ''User not found'')"
    and "deleteUser db i = (Sent (failure 404 ''User not found''), db)"
    using assms(1) by (simp_all add: getUsers_def findById_def deleteUser_def findByIdAndDelete_def)
qed

text \<open>
  An identifier that is not well formed makes the cast fail, and both handlers hand the
  cast error to the next middleware.
\<close>

lemma malformed_id_next:
  assumes "castObjectId i = Inl err" and "i \<noteq> []"
  shows "getUsers db (Some i) = Next err" and "deleteUser db i = (Next err, db)"
  using assms by (simp_all add: getUsers_def findById_def deleteUser_def findByIdAndDelete_def)

text \<open>
  Claim C2 asks for the not-found envelope of status 404, and never status 500, also for
  an identifier that is not well formed. For the identifier \<open>bogus\<close> the lookup and the
  delete request are both answered with status 500 and the message of the cast error, and
  the stack of the error is written to the console.
\<close>

theorem malformed_id_server_error:
  "app isEmail newId now srv (GetUsers (Some ''bogus'')) =
     (failure 500 (e_message (castError ''bogus'')),
      srv\<lparr>console := console srv @ [e_stack (castError ''bogus'')]\<rparr>) \<and>
   app isEmail newId now srv (DeleteUsers ''bogus'') =
     (failure 500 (e_message (castError ''bogus'')),
      srv\<lparr>console := console srv @ [e_stack (castError ''bogus'')]\<rparr>) \<and>
   failure 500 (e_message (castError ''bogus'')) \<noteq> failure 404 ''User not found''"
  by (simp add: app_def route_def respond_def getUsers_def deleteUser_def findById_def
      findByIdAndDelete_def castObjectId_bogus errorMiddleware_def castError_def mkError_def
      failure_def)


section \<open>Errors that no handler catches\<close>

lemma route_Next_keeps:
  assumes "route isEmail newId now db req = (Next err, db')"
  shows "db' = db"
proof (cases req)
  case (GetUsers idq)
  then show ?thesis using assms by (simp add: route_def)
next
  case (PostUsers b)
  then show ?thesis using assms
    by (auto simp: route_def createUser_def split: sum.splits option.splits prod.splits)
next
  case (PutUsers i b)
  then show ?thesis using assms
    by (auto simp: route_def updateUser_def split: sum.splits option.splits prod.splits)
next
  case (DeleteUsers i)
  then show ?thesis using assms
    by (auto simp: route_def deleteUser_def split: sum.splits option.splits prod.splits)
qed

text \<open>
  Claim C3, as amended. For every error that reaches the error-handling middleware,
  whatever raised it, the response is the envelope with \<open>success\<close> false and a message
  and no other key; its status is the status of the error when it has one that is not 0,
  and 500 otherwise; its message is the message of the error when that is not empty, and
  \<open>Internal Server Error\<close> otherwise. The stack of the error is appended to the console
  and is no key of the response. When it is the handler of a request that hands the error
  on, this is the answer of the server to the request, and the collection is left as it
  was.
\<close>

theorem uncaught_error_response:
  "errorMiddleware err out =
     (\<lparr>status = (case e_status err of
                   Some st \<Rightarrow> if st \<noteq> 0 then st else 500
                 | None \<Rightarrow> 500),
       body = \<lparr>success = False,
               message = Some (if e_message err \<noteq> [] then e_message err
                               else ''Internal Server Error''),
               count = None, data = None, errors = None\<rparr>\<rparr>,
      out @ [e_stack err]) \<and>
   respond srv (Next err, db) =
     (fst (errorMiddleware err (console srv)),
      srv\<lparr>users := db, console := console srv @ [e_stack err]\<rparr>) \<and>
   (route isEmail newId now (users srv) req = (Next err, db) \<longrightarrow>
      app isEmail newId now srv req =
        (fst (errorMiddleware err (console srv)),
         srv\<lparr>console := console srv @ [e_stack err]\<rparr>))"
proof -
  have mw: "errorMiddleware err out =
     (\<lparr>status = (case e_status err of
                   Some st \<Rightarrow> if st \<noteq> 0 then st else 500
                 | None \<Rightarrow> 500),
       body = \<lparr>success = False,
               message = Some (if e_message err \<noteq> [] then e_message err
                               else ''Internal Server Error''),
               count = None, data = None, errors = None\<rparr>\<rparr>,
      out @ [e_stack err])" for out
    by (simp add: errorMiddleware_def failure_def)
  have rs: "respond srv (Next err, db) =
     (fst (errorMiddleware err (console srv)),
      srv\<lparr>users := db, console := console srv @ [e_stack err]\<rparr>)" for db
    by (simp add: respond_def errorMiddleware_def)
  have "app isEmail newId now srv req =
        (fst (errorMiddleware err (console srv)),
         srv\<lparr>console := console srv @ [e_stack err]\<rparr>)"
    if r: "route isEmail newId now (users srv) req = (Next err, db)"
  proof -
    have "db = users srv"
      using route_Next_keeps [OF r] .
    then show ?thesis
      using r rs [of db] by (simp add: app_def)
  qed
  then show ?thesis
    using mw rs by blast
qed

text \<open>
  Four errors at the middleware: one with status 400 and a message, as the body parser
  raises on a malformed body; one without a status; one without a message; one with status
  0. And the cast error that the delete handler hands on for the identifier \<open>bogus\<close>.
\<close>

theorem uncaught_error_response_witness:
  "errorMiddleware
     \<lparr>e_name = ''SyntaxError'', e_message = ''Unexpected end of JSON input'',
      e_stack = ''SyntaxError: Unexpected end of JSON input'', e_status = Some 400\<rparr> [] =
     (failure 400 ''Unexpected end of JSON input'',
      [''SyntaxError: Unexpected end of JSON input'']) \<and>
   errorMiddleware
     \<lparr>e_name = ''MongoNetworkError'', e_message = ''connection timed out'',
      e_stack = ''MongoNetworkError: connection timed out'', e_status = None\<rparr> [''earlier''] =
     (failure 500 ''connection timed out'',
      [''earlier'', ''MongoNetworkError: connection timed out'']) \<and>
   errorMiddleware
     \<lparr>e_name = ''Error'', e_message = [], e_stack = ''Error'', e_status = None\<rparr> [] =
     (failure 500 ''Internal Server Error'', [''Error'']) \<and>
   errorMiddleware
     \<lparr>e_name = ''Error'', e_message = ''zero'', e_stack = ''Error: zero'', e_status = Some 0\<rparr> [] =
     (failure 500 ''zero'', [''Error: zero'']) \<and>
   respond exampleServer
     (Next \<lparr>e_name = ''SyntaxError'', e_message = ''Unexpected end of JSON input'',
            e_stack = ''SyntaxError: Unexpected end of JSON input'', e_status = Some 400\<rparr>,
      [exampleUser]) =
     (failure 400 ''Unexpected end of JSON input'',
      exampleServer\<lparr>console := [''SyntaxError: Unexpected end of JSON input'']\<rparr>) \<and>
   route hasAtSign ''aaaaaaaaaaaaaaaaaaaaaaaa'' 2000 (users exampleServer) (DeleteUsers ''bogus'') =
     (Next (castError ''bogus''), [exampleUser]) \<and>
   app hasAtSign ''aaaaaaaaaaaaaaaaaaaaaaaa'' 2000 exampleServer (DeleteUsers ''bogus'') =
     (failure 500 (e_message (castError ''bogus'')),
      exampleServer\<lparr>console := [e_stack (castError ''bogus'')]\<rparr>)"
proof -
  have h: "route hasAtSign ''aaaaaaaaaaaaaaaaaaaaaaaa'' 2000 (users exampleServer)
               (DeleteUsers ''bogus'') =
             (Next (castError ''bogus''), [exampleUser])"
    by (simp add: route_def deleteUser_def findByIdAndDelete_def castObjectId_bogus
        exampleServer_def)
  have a: "app hasAtSign ''aaaaaaaaaaaaaaaaaaaaaaaa'' 2000 exampleServer (DeleteUsers ''bogus'') =
             (failure 500 (e_message (castError ''bogus'')),
              exampleServer\<lparr>console := [e_stack (castError ''bogus'')]\<rparr>)"
    using uncaught_error_response [of "castError ''bogus''" "[]" exampleServer "[exampleUser]"
        hasAtSign "''aaaaaaaaaaaaaaaaaaaaaaaa''" 2000 "DeleteUsers ''bogus''"] h
    by (simp add: castError_def mkError_def exampleServer_def failure_def)
  have r: "respond exampleServer
     (Next \<lparr>e_name = ''SyntaxError'', e_message = ''Unexpected end of JSON input'',
            e_stack = ''SyntaxError: Unexpected end of JSON input'', e_status = Some 400\<rparr>,
      [exampleUser]) =
     (failure 400 ''Unexpected end of JSON input'',
      exampleServer\<lparr>console := [''SyntaxError: Unexpected end of JSON input'']\<rparr>)"
    using uncaught_error_response [of
        "\<lparr>e_name = ''SyntaxError'', e_message = ''Unexpected end of JSON input'',
          e_stack = ''SyntaxError: Unexpected end of JSON input'', e_status = Some 400\<rparr>"
        "console exampleServer" exampleServer "[exampleUser]"]
    by (simp add: exampleServer_def failure_def)
  show ?thesis
    using uncaught_error_response [of
        "\<lparr>e_name = ''SyntaxError'', e_message = ''Unexpected end of JSON input'',
          e_stack = ''SyntaxError: Unexpected end of JSON input'', e_status = Some 400\<rparr>" "[]"]
      uncaught_error_response [of
        "\<lparr>e_name = ''MongoNetworkError'', e_message = ''connection timed out'',
          e_stack = ''MongoNetworkError: connection timed out'', e_status = None\<rparr>"
        "[''earlier'']"]
      uncaught_error_response [of
        "\<lparr>e_name = ''Error'', e_message = [], e_stack = ''Error'', e_status = None\<rparr>" "[]"]
      uncaught_error_response [of
        "\<lparr>e_name = ''Error'', e_message = ''zero'', e_stack = ''Error: zero'',
          e_status = Some 0\<rparr>" "[]"]
      h a r
    by (simp add: failure_def)
qed

text \<open>
  The claim as first stated promises a message without the detail of the error. The
  lookup of the identifier \<open>bogus\<close> is answered with the message of the cast error
  itself, which names the value, the path and the model.
\<close>

theorem uncaught_error_response_counterexample:
  "fst (app hasAtSign ''aaaaaaaaaaaaaaaaaaaaaaaa'' 2000 exampleServer
          (GetUsers (Some ''bogus''))) =
     failure 500
       ''Cast to ObjectId failed for value \"bogus\" (type string) at path \"_id\" for model \"User\"'' \<and>
   e_message (castError ''bogus'') =
     ''Cast to ObjectId failed for value \"bogus\" (type string) at path \"_id\" for model \"User\"''"
  by (simp add: app_def route_def respond_def getUsers_def findById_def
      castObjectId_bogus errorMiddleware_def castError_def mkError_def failure_def)

end
